theory Spec2Isabelle
  imports Complex_Main
begin

section \<open>Line-length JND threshold test: the session engine of LinesLengthJNDThreshold.py\<close>

text \<open>
  The script is a Tk program. Its module-level variables (\<open>root.counter\<close>, \<open>choice\<close>,
  \<open>lineA_length\<close>, \<open>lineB_length\<close>, \<open>NumCorrect\<close>, \<open>Total\<close>, the string variable
  \<open>Option\<close>) are the fields of one record that every function takes and returns.
  The canvases are not modelled (\<open>LinesCoordinates\<close>, \<open>HideLines\<close> and the \<open>print\<close>
  calls change none of these variables); of the widgets only two facts are kept: whether
  the Next button is still gridded, and how often \<open>PlotResults\<close> has run.

  Numbers: the line lengths are Python/NumPy integers (\<open>int\<close>); \<open>NumCorrect\<close> and
  \<open>Total\<close> are float arrays holding multiples of one half, and the fitted threshold is
  a float: both are \<open>real\<close> here (no rounding, no NaN).

  Randomness: every call of \<open>random.choice\<close> / \<open>np.random.choice\<close> takes the
  generator's draw as an extra argument, a natural number reduced below the length of
  the sequence; the element at that position is returned. The positions
  \<open>0, ..., len - 1\<close> are the equiprobable outcomes of one call.
\<close>

datatype py_error = IndexError | ValueError

subsection \<open>Library functions the script calls\<close>

text \<open>\<open>random.choice(seq)\<close> for a non-empty \<open>seq\<close> (all call sites pass non-empty constants).\<close>

definition random_choice :: "'a list \<Rightarrow> nat \<Rightarrow> 'a" where
  "random_choice seq r = seq ! (r mod length seq)"

text \<open>\<open>np.arange(start, stop, 1)\<close> on integers and \<open>range(n)\<close>.\<close>

definition np_arange :: "int \<Rightarrow> int \<Rightarrow> int list" where
  "np_arange start stop = [start..stop - 1]"

definition py_range :: "nat \<Rightarrow> int list" where
  "py_range n = map int [0..<n]"

definition np_zeros :: "nat \<Rightarrow> real list" where
  "np_zeros n = replicate n 0"

text \<open>\<open>xs[-1]\<close> on a Python list: IndexError when the list is empty.\<close>

definition py_last :: "'a list \<Rightarrow> py_error + 'a" where
  "py_last xs = (if xs = [] then Inl IndexError else Inr (last xs))"

text \<open>\<open>a[i]\<close> on a one-dimensional array with an integer index: a negative index counts
  from the end, anything outside \<open>[-len, len - 1]\<close> raises IndexError.\<close>

definition np_getitem :: "'a list \<Rightarrow> int \<Rightarrow> py_error + 'a" where
  "np_getitem a i =
     (if 0 \<le> i \<and> i < int (length a) then Inr (a ! nat i)
      else if i < 0 \<and> - int (length a) \<le> i then Inr (a ! nat (int (length a) + i))
      else Inl IndexError)"

text \<open>\<open>np.argmin\<close> on a one-dimensional array: the position of the first occurrence of
  the minimum; ValueError on an empty array. \<open>argmin_from ys i best v\<close> scans the rest
  \<open>ys\<close>, whose head has position \<open>i\<close>, with the smallest value \<open>v\<close> seen so far at
  position \<open>best\<close>.\<close>

fun argmin_from :: "real list \<Rightarrow> nat \<Rightarrow> nat \<Rightarrow> real \<Rightarrow> nat" where
  "argmin_from [] i best v = best"
| "argmin_from (y # ys) i best v =
     (if y < v then argmin_from ys (Suc i) i y else argmin_from ys (Suc i) best v)"

definition np_argmin :: "real list \<Rightarrow> py_error + nat" where
  "np_argmin a = (case a of [] \<Rightarrow> Inl ValueError | y # ys \<Rightarrow> Inr (argmin_from ys 1 0 y))"

text \<open>\<open>np.where(a == v)\<close>: the positions holding \<open>v\<close>, in increasing order.\<close>

definition np_where_eq :: "int list \<Rightarrow> int \<Rightarrow> nat list" where
  "np_where_eq a v = filter (\<lambda>i. a ! i = v) [0..<length a]"

text \<open>\<open>a[idx] += c\<close> with an index array: the old values at \<open>idx\<close> are read, \<open>c\<close> is
  added, and the sums are written back (an empty \<open>idx\<close> changes nothing); IndexError
  when a position is outside the array.\<close>

definition np_iadd :: "real list \<Rightarrow> nat list \<Rightarrow> real \<Rightarrow> py_error + real list" where
  "np_iadd a idx c =
     (if list_all (\<lambda>i. i < length a) idx
      then Inr (fold (\<lambda>i b. b[i := a ! i + c]) idx a)
      else Inl IndexError)"

subsection \<open>Test parameters\<close>

definition MaxTrials :: int where
  "MaxTrials = 30"

definition MinTrials :: real where
  "MinTrials = 0.30 * real_of_int MaxTrials"

definition StimLevels :: "int list" where
  "StimLevels = np_arange 0 15"

definition Gamma :: real where
  "Gamma = 0.5"

definition Lambda :: real where
  "Lambda = 0.01"

definition typef :: string where
  "typef = ''Logistic''"

subsection \<open>The pair of line lengths\<close>

definition NewLinesLengths :: "int \<Rightarrow> int \<Rightarrow> nat \<Rightarrow> int \<times> int" where
  "NewLinesLengths size_base size_add r =
     (let size_lineA = size_base; size_lineB = size_base in
      if random_choice [''A'', ''B''] r = ''A''
      then (size_lineA + size_add, size_lineB)
      else (size_lineA, size_lineB + size_add))"

definition size_base :: int where
  "size_base = 150"

subsection \<open>Session state\<close>

text \<open>
  \<open>MLE_search\<close> and \<open>PsychometricFunction\<close> live in modules that are not part of this
  file: the search is a parameter of the model, called with the six arguments the script
  passes, and of its result only \<open>success\<close> and \<open>x[0], x[1]\<close> are read.
\<close>

record OptimizeResult =
  success :: bool
  x :: "real \<times> real"

type_synonym MLE_search =
  "real \<Rightarrow> real \<Rightarrow> string \<Rightarrow> int list \<Rightarrow> real list \<Rightarrow> real list \<Rightarrow> OptimizeResult"

record session =
  counter :: int
  choice :: "string list"
  lineA_length :: "int list"
  lineB_length :: "int list"
  NumCorrect :: "real list"
  Total :: "real list"
  Option_var :: string
  widgets_shown :: bool
  plots :: "(real \<times> real) list"

text \<open>The draws one callback may consume: the position of the uniformly chosen level,
  the position inside the five-element jitter array, and the coin of \<open>NewLinesLengths\<close>.\<close>

record draws =
  r_index :: nat
  r_jitter :: nat
  r_side :: nat

subsection \<open>Choosing the next stimulus\<close>

text \<open>The value of the local variable \<open>StimIndex\<close> of \<open>GetNextLengths\<close> when control
  reaches \<open>size_add = StimLevels[StimIndex]\<close>.\<close>

definition GetNextLengths_StimIndex ::
  "MLE_search \<Rightarrow> draws \<Rightarrow> session \<Rightarrow> py_error + int" where
  "GetNextLengths_StimIndex mle d st =
     (if real_of_int (counter st) < MinTrials
      then Inr (random_choice (py_range (length StimLevels)) (r_index d))
      else
        (let results = mle Gamma Lambda typef StimLevels (NumCorrect st) (Total st) in
         if success results
         then
           (let diff = map (\<lambda>l. \<bar>real_of_int l - fst (x results)\<bar>) StimLevels in
            case np_argmin diff of
              Inl e \<Rightarrow> Inl e
            | Inr k \<Rightarrow>
               (let StimIndex = random_choice (np_arange (int k - 2) (int k + 3)) (r_jitter d) in
                if StimIndex < 0 then Inr 0
                else if StimIndex > int (length StimLevels) - 1
                then Inr (int (length StimLevels) - 1)
                else Inr StimIndex))
         else Inr (random_choice (py_range (length StimLevels)) (r_index d))))"

definition GetNextLengths :: "MLE_search \<Rightarrow> draws \<Rightarrow> session \<Rightarrow> py_error + int \<times> int" where
  "GetNextLengths mle d st =
     (case GetNextLengths_StimIndex mle d st of
        Inl e \<Rightarrow> Inl e
      | Inr StimIndex \<Rightarrow>
         (case np_getitem StimLevels StimIndex of
            Inl e \<Rightarrow> Inl e
          | Inr size_add \<Rightarrow> Inr (NewLinesLengths size_base size_add (r_side d))))"

definition PresentNextLines :: "MLE_search \<Rightarrow> draws \<Rightarrow> session \<Rightarrow> py_error + session" where
  "PresentNextLines mle d st =
     (case GetNextLengths mle d st of
        Inl e \<Rightarrow> Inl e
      | Inr (size_lineA, size_lineB) \<Rightarrow>
          Inr (st\<lparr>lineA_length := lineA_length st @ [size_lineA],
                  lineB_length := lineB_length st @ [size_lineB],
                  Option_var := ''''\<rparr>))"

subsection \<open>Scoring a response\<close>

definition UpdateResultsVariablesByChoice :: "session \<Rightarrow> py_error + session" where
  "UpdateResultsVariablesByChoice st =
     (case py_last (lineA_length st) of
        Inl e \<Rightarrow> Inl e
      | Inr a \<Rightarrow>
     (case py_last (lineB_length st) of
        Inl e \<Rightarrow> Inl e
      | Inr b \<Rightarrow>
     (let stimulus_value = \<bar>a - b\<bar>;
          stimulus_index = np_where_eq StimLevels stimulus_value in
      case np_iadd (Total st) stimulus_index 1 of
        Inl e \<Rightarrow> Inl e
      | Inr tot \<Rightarrow>
     (let st1 = st\<lparr>Total := tot\<rparr>;
          correct = (if a > b then ''A'' else if b > a then ''B'' else ''Equal'') in
      case py_last (choice st1) of
        Inl e \<Rightarrow> Inl e
      | Inr c \<Rightarrow>
          if correct = c
          then (case np_iadd (NumCorrect st1) stimulus_index 1 of
                  Inl e \<Rightarrow> Inl e
                | Inr nc \<Rightarrow> Inr (st1\<lparr>NumCorrect := nc\<rparr>))
          else if correct = ''Equal''
          then (case np_iadd (NumCorrect st1) stimulus_index (1 / 2) of
                  Inl e \<Rightarrow> Inl e
                | Inr nc \<Rightarrow> Inr (st1\<lparr>NumCorrect := nc\<rparr>))
          else Inr st1))))"

subsection \<open>The Next button\<close>

definition HideWidgets :: "session \<Rightarrow> session" where
  "HideWidgets st = st\<lparr>widgets_shown := False\<rparr>"

definition PlotResults :: "MLE_search \<Rightarrow> session \<Rightarrow> session" where
  "PlotResults mle st =
     (let results = mle Gamma Lambda typef StimLevels (NumCorrect st) (Total st) in
      st\<lparr>plots := plots st @ [x results]\<rparr>)"

definition NextCallback :: "MLE_search \<Rightarrow> draws \<Rightarrow> session \<Rightarrow> py_error + session" where
  "NextCallback mle d st0 =
     (let st = st0\<lparr>counter := counter st0 + 1\<rparr> in
      if Option_var st = '''' then Inr st
      else
        (case UpdateResultsVariablesByChoice (st\<lparr>choice := choice st @ [Option_var st]\<rparr>) of
           Inl e \<Rightarrow> Inl e
         | Inr st2 \<Rightarrow>
             if counter st2 < MaxTrials then PresentNextLines mle d st2
             else Inr (PlotResults mle (HideWidgets st2))))"

subsection \<open>Start of the program and the event loop\<close>

definition InitialiseLines :: "int \<Rightarrow> draws \<Rightarrow> session \<Rightarrow> session" where
  "InitialiseLines sb d st =
     (case NewLinesLengths sb (random_choice StimLevels (r_index d)) (r_side d) of
        (size_lineA, size_lineB) \<Rightarrow>
          st\<lparr>lineA_length := lineA_length st @ [size_lineA],
             lineB_length := lineB_length st @ [size_lineB]\<rparr>)"

text \<open>The state when \<open>root.mainloop()\<close> starts: the initial variables, the first pair of
  lines, an unset \<open>Option\<close>, all widgets gridded.\<close>

definition start :: "draws \<Rightarrow> session" where
  "start d =
     InitialiseLines size_base d
       \<lparr>counter = 0, choice = [], lineA_length = [], lineB_length = [],
        NumCorrect = np_zeros (length StimLevels), Total = np_zeros (length StimLevels),
        Option_var = '''', widgets_shown = True, plots = []\<rparr>"

text \<open>
  What the participant can do while the main loop runs: press radio button A or B
  (Tk stores the button's value in \<open>Option\<close>), or press Next (Tk runs \<open>NextCallback\<close>).
  A widget removed by \<open>grid_forget\<close> is not on screen and receives no presses.
  Tk reports an exception raised in a callback and goes on; here the loop stops with the
  error, and \<open>mainloop_ok\<close> below shows that no callback of a session raises.
\<close>

datatype event = SelectA | SelectB | Next draws

fun handle :: "MLE_search \<Rightarrow> session \<Rightarrow> event \<Rightarrow> py_error + session" where
  "handle mle st SelectA = Inr (if widgets_shown st then st\<lparr>Option_var := ''A''\<rparr> else st)"
| "handle mle st SelectB = Inr (if widgets_shown st then st\<lparr>Option_var := ''B''\<rparr> else st)"
| "handle mle st (Next d) = (if widgets_shown st then NextCallback mle d st else Inr st)"

fun mainloop :: "MLE_search \<Rightarrow> session \<Rightarrow> event list \<Rightarrow> py_error + session" where
  "mainloop mle st [] = Inr st"
| "mainloop mle st (e # es) =
     (case handle mle st e of Inl err \<Rightarrow> Inl err | Inr st' \<Rightarrow> mainloop mle st' es)"

subsection \<open>Vocabulary of the properties\<close>


definition index_outcomes :: "MLE_search \<Rightarrow> draws \<Rightarrow> session \<Rightarrow> (py_error + int) list" where
  "index_outcomes mle d st =
     map (\<lambda>r. GetNextLengths_StimIndex mle (d\<lparr>r_index := r\<rparr>) st) [0..<length StimLevels]"

text \<open>The shape every state of a running session has (shown below): arrays as long as
  \<open>StimLevels\<close>, a current pair of lines whose difference is one of the levels, and
  \<open>Option\<close> unset or holding the value of a radio button.\<close>

definition session_ok :: "session \<Rightarrow> bool" where
  "session_ok st \<longleftrightarrow>
     length (Total st) = length StimLevels \<and> length (NumCorrect st) = length StimLevels \<and>
     lineA_length st \<noteq> [] \<and> lineB_length st \<noteq> [] \<and>
     \<bar>last (lineA_length st) - last (lineB_length st)\<bar> < int (length StimLevels) \<and>
     (Option_var st = '''' \<or> Option_var st = ''A'' \<or> Option_var st = ''B'')"


definition fit_failed :: MLE_search where
  "fit_failed g l f levels nc tot = \<lparr>success = False, x = (0, 0)\<rparr>"

definition draws0 :: draws where
  "draws0 = \<lparr>r_index = 3, r_jitter = 1, r_side = 0\<rparr>"

definition draws1 :: draws where
  "draws1 = \<lparr>r_index = 5, r_jitter = 4, r_side = 1\<rparr>"

section \<open>Properties\<close>

subsection \<open>Facts about the library functions and the constants\<close>

lemma StimLevels_length: "length StimLevels = 15"
  by (simp add: StimLevels_def np_arange_def)

lemma StimLevels_nth: "i < 15 \<Longrightarrow> StimLevels ! i = int i"
  by (simp add: StimLevels_def np_arange_def)

lemma random_choice_py_range: "0 < n \<Longrightarrow> random_choice (py_range n) r = int (r mod n)"
  by (simp add: random_choice_def py_range_def)

lemma random_choice_StimLevels: "random_choice StimLevels r = int (r mod 15)"
  by (simp add: random_choice_def StimLevels_length StimLevels_nth)

lemma random_choice_np_arange:
  "random_choice (np_arange (k - 2) (k + 3)) r = k - 2 + int (r mod 5)"
  by (simp add: random_choice_def np_arange_def)

lemma argmin_from_bound: "best < i \<Longrightarrow> argmin_from ys i best v < i + length ys"
proof (induction ys arbitrary: i best v)
  case Nil
  then show ?case by simp
next
  case (Cons y ys)
  have a: "argmin_from ys (Suc i) i y < Suc i + length ys"
    by (rule Cons.IH) simp
  have b: "argmin_from ys (Suc i) best v < Suc i + length ys"
    by (rule Cons.IH) (use Cons.prems in simp)
  show ?case using a b by simp
qed

lemma np_argmin_bound: "a \<noteq> [] \<Longrightarrow> \<exists>k. np_argmin a = Inr k \<and> k < length a"
proof (cases a)
  case Nil
  assume "a \<noteq> []"
  with Nil show ?thesis by simp
next
  case (Cons y ys)
  have "argmin_from ys 1 0 y < 1 + length ys"
    by (rule argmin_from_bound) simp
  with Cons show ?thesis by (simp add: np_argmin_def)
qed


subsection \<open>The selector never fails and stays inside the level array\<close>

lemma MinTrials_eq: "MinTrials = 9"
  by (simp add: MinTrials_def MaxTrials_def)

lemma np_getitem_StimLevels: "0 \<le> k \<Longrightarrow> k < 15 \<Longrightarrow> np_getitem StimLevels k = Inr k"
  by (simp add: np_getitem_def StimLevels_length StimLevels_nth)

lemma nearest_exists:
  "\<exists>n. np_argmin (map f StimLevels) = Inr n \<and> n < 15"
proof -
  have "map f StimLevels \<noteq> []" using StimLevels_length by auto
  from np_argmin_bound [OF this] show ?thesis by (simp add: StimLevels_length)
qed

lemma StimIndex_adaptive:
  assumes "\<not> real_of_int (counter st) < MinTrials"
    and "success (mle Gamma Lambda typef StimLevels (NumCorrect st) (Total st))"
    and "np_argmin (map (\<lambda>l. \<bar>real_of_int l - fst (x (mle Gamma Lambda typef StimLevels (NumCorrect st) (Total st)))\<bar>) StimLevels) = Inr n"
  shows "GetNextLengths_StimIndex mle d st =
     Inr (if int n - 2 + int (r_jitter d mod 5) < 0 then 0
          else if int n - 2 + int (r_jitter d mod 5) > 14 then 14
          else int n - 2 + int (r_jitter d mod 5))"
  using assms
  by (simp add: GetNextLengths_StimIndex_def Let_def random_choice_np_arange StimLevels_length)

lemma StimIndex_random:
  assumes "real_of_int (counter st) < MinTrials \<or>
     \<not> success (mle Gamma Lambda typef StimLevels (NumCorrect st) (Total st))"
  shows "GetNextLengths_StimIndex mle d st = Inr (int (r_index d mod 15))"
  using assms
  by (auto simp: GetNextLengths_StimIndex_def Let_def random_choice_py_range StimLevels_length)

lemma StimIndex_range:
  "\<exists>k. GetNextLengths_StimIndex mle d st = Inr k \<and> 0 \<le> k \<and> k < 15"
proof (cases "real_of_int (counter st) < MinTrials \<or>
     \<not> success (mle Gamma Lambda typef StimLevels (NumCorrect st) (Total st))")
  case True
  then show ?thesis by (simp add: StimIndex_random)
next
  case False
  obtain n where n: "np_argmin (map (\<lambda>l. \<bar>real_of_int l - fst (x (mle Gamma Lambda typef StimLevels (NumCorrect st) (Total st)))\<bar>) StimLevels) = Inr n"
    using nearest_exists by blast
  from False have a: "\<not> real_of_int (counter st) < MinTrials"
    and b: "success (mle Gamma Lambda typef StimLevels (NumCorrect st) (Total st))" by simp_all
  have "GetNextLengths_StimIndex mle d st =
     Inr (if int n - 2 + int (r_jitter d mod 5) < 0 then 0
          else if int n - 2 + int (r_jitter d mod 5) > 14 then 14
          else int n - 2 + int (r_jitter d mod 5))"
    using a b n by (rule StimIndex_adaptive)
  then show ?thesis by simp
qed

lemma NewLinesLengths_diff: "0 \<le> inc \<Longrightarrow> NewLinesLengths b inc r = (p, q) \<Longrightarrow> \<bar>p - q\<bar> = inc"
  by (auto simp: NewLinesLengths_def split: if_splits)

lemma GetNextLengths_ok:
  "\<exists>p q. GetNextLengths mle d st = Inr (p, q) \<and> \<bar>p - q\<bar> < 15"
proof -
  obtain k where k: "GetNextLengths_StimIndex mle d st = Inr k" "0 \<le> k" "k < 15"
    using StimIndex_range by blast
  obtain p q where pq: "NewLinesLengths size_base k (r_side d) = (p, q)"
    by (cases "NewLinesLengths size_base k (r_side d)") simp
  have "\<bar>p - q\<bar> = k" using NewLinesLengths_diff [OF k(2) pq] .
  then show ?thesis using k pq by (simp add: GetNextLengths_def np_getitem_StimLevels)
qed

lemma PresentNextLines_ok:
  "\<exists>p q. PresentNextLines mle d st =
       Inr (st\<lparr>lineA_length := lineA_length st @ [p], lineB_length := lineB_length st @ [q],
              Option_var := ''''\<rparr>) \<and> \<bar>p - q\<bar> < 15"
proof -
  obtain p q where "GetNextLengths mle d st = Inr (p, q)" "\<bar>p - q\<bar> < 15"
    using GetNextLengths_ok by blast
  then have "PresentNextLines mle d st =
       Inr (st\<lparr>lineA_length := lineA_length st @ [p], lineB_length := lineB_length st @ [q],
              Option_var := ''''\<rparr>) \<and> \<bar>p - q\<bar> < 15"
    by (simp add: PresentNextLines_def)
  then show ?thesis by blast
qed

subsection \<open>One scoring call\<close>

lemma filter_int_eq:
  "filter (\<lambda>i. int i = v) [0..<n] = (if 0 \<le> v \<and> v < int n then [nat v] else [])"
  by (induction n) auto

lemma np_where_eq_StimLevels:
  "np_where_eq StimLevels v = (if 0 \<le> v \<and> v < 15 then [nat v] else [])"
proof -
  have "filter (\<lambda>i. StimLevels ! i = v) [0..<15] = filter (\<lambda>i. int i = v) [0..<15]"
    by (rule filter_cong) (simp_all add: StimLevels_nth)
  then show ?thesis
    by (simp add: np_where_eq_def StimLevels_length filter_int_eq)
qed

lemma np_iadd_single:
  "i < length a \<Longrightarrow> np_iadd a [i] c = Inr (a[i := a ! i + c])"
  by (simp add: np_iadd_def)

lemma Update_scored:
  assumes "lineA_length st \<noteq> []" "lineB_length st \<noteq> []" "choice st \<noteq> []"
    and "length (Total st) = 15" "length (NumCorrect st) = 15"
    and "\<bar>last (lineA_length st) - last (lineB_length st)\<bar> = int i" "i < 15"
  shows "UpdateResultsVariablesByChoice st =
     Inr (st\<lparr>Total := (Total st)[i := Total st ! i + 1],
            NumCorrect := (NumCorrect st)[i := NumCorrect st ! i +
               (if (last (lineA_length st) > last (lineB_length st) \<and> last (choice st) = ''A'')
                 \<or> (last (lineB_length st) > last (lineA_length st) \<and> last (choice st) = ''B'')
                 \<or> (last (lineA_length st) = last (lineB_length st) \<and> last (choice st) = ''Equal'')
                then 1
                else if last (lineA_length st) = last (lineB_length st) then 1 / 2 else 0)]\<rparr>)"
proof -
  have w: "np_where_eq StimLevels \<bar>last (lineA_length st) - last (lineB_length st)\<bar> = [i]"
    using assms(6,7) by (simp add: np_where_eq_StimLevels)
  have t: "np_iadd (Total st) [i] c = Inr ((Total st)[i := Total st ! i + c])" for c
    using assms(4,7) by (simp add: np_iadd_single)
  have n: "np_iadd (NumCorrect st) [i] c = Inr ((NumCorrect st)[i := NumCorrect st ! i + c])" for c
    using assms(5,7) by (simp add: np_iadd_single)
  show ?thesis
    using assms(1,2,3)
    by (auto simp: UpdateResultsVariablesByChoice_def py_last_def w t n Let_def)
qed

subsection \<open>Every state of a session is well formed and no callback raises\<close>

lemma session_ok_level:
  assumes "session_ok st"
  shows "\<bar>last (lineA_length st) - last (lineB_length st)\<bar>
           = int (nat \<bar>last (lineA_length st) - last (lineB_length st)\<bar>)
       \<and> nat \<bar>last (lineA_length st) - last (lineB_length st)\<bar> < 15"
proof -
  have "\<bar>last (lineA_length st) - last (lineB_length st)\<bar> < 15"
    using assms by (simp add: session_ok_def StimLevels_length)
  then show ?thesis by linarith
qed

lemma NextCallback_empty:
  "Option_var st = '''' \<Longrightarrow> NextCallback mle d st = Inr (st\<lparr>counter := counter st + 1\<rparr>)"
  by (simp add: NextCallback_def)

lemma NextCallback_scored:
  assumes ok: "session_ok st" and opt: "Option_var st \<noteq> ''''"
    and i: "i = nat \<bar>last (lineA_length st) - last (lineB_length st)\<bar>"
    and st2: "st2 = st\<lparr>counter := counter st + 1, choice := choice st @ [Option_var st],
        Total := (Total st)[i := Total st ! i + 1],
        NumCorrect := (NumCorrect st)[i := NumCorrect st ! i +
               (if (last (lineA_length st) > last (lineB_length st) \<and> Option_var st = ''A'')
                 \<or> (last (lineB_length st) > last (lineA_length st) \<and> Option_var st = ''B'')
                then 1
                else if last (lineA_length st) = last (lineB_length st) then 1 / 2 else 0)]\<rparr>"
  shows "NextCallback mle d st =
      (if counter st + 1 < MaxTrials then PresentNextLines mle d st2
       else Inr (PlotResults mle (HideWidgets st2)))"
proof -
  let ?s = "st\<lparr>counter := counter st + 1, choice := choice st @ [Option_var st]\<rparr>"
  have lv: "\<bar>last (lineA_length ?s) - last (lineB_length ?s)\<bar> = int i" "i < 15"
    using session_ok_level [OF ok] i by simp_all
  have ne: "lineA_length ?s \<noteq> []" "lineB_length ?s \<noteq> []" "choice ?s \<noteq> []"
    "length (Total ?s) = 15" "length (NumCorrect ?s) = 15"
    using ok by (simp_all add: session_ok_def StimLevels_length)
  have o: "Option_var st = ''A'' \<or> Option_var st = ''B''"
    using ok opt by (simp add: session_ok_def)
  have "UpdateResultsVariablesByChoice ?s = Inr st2"
    unfolding Update_scored [OF ne lv] st2 using o by auto
  then show ?thesis
    using opt by (simp add: NextCallback_def Let_def st2)
qed

lemma start_ok: "session_ok (start d)"
proof -
  have "r_index d mod 15 < 15" by simp
  then show ?thesis
    by (auto simp: start_def InitialiseLines_def session_ok_def NewLinesLengths_def np_zeros_def
      random_choice_StimLevels StimLevels_length size_base_def Let_def)
qed

lemma NextCallback_ok:
  assumes ok: "session_ok st"
  shows "\<exists>st'. NextCallback mle d st = Inr st' \<and> session_ok st'"
proof (cases "Option_var st = ''''")
  case True
  then show ?thesis using ok by (simp add: NextCallback_empty session_ok_def)
next
  case False
  define i where "i = nat \<bar>last (lineA_length st) - last (lineB_length st)\<bar>"
  define st2 where "st2 = st\<lparr>counter := counter st + 1, choice := choice st @ [Option_var st],
        Total := (Total st)[i := Total st ! i + 1],
        NumCorrect := (NumCorrect st)[i := NumCorrect st ! i +
               (if (last (lineA_length st) > last (lineB_length st) \<and> Option_var st = ''A'')
                 \<or> (last (lineB_length st) > last (lineA_length st) \<and> Option_var st = ''B'')
                then 1
                else if last (lineA_length st) = last (lineB_length st) then 1 / 2 else 0)]\<rparr>"
  have nc: "NextCallback mle d st =
      (if counter st + 1 < MaxTrials then PresentNextLines mle d st2
       else Inr (PlotResults mle (HideWidgets st2)))"
    using ok False i_def st2_def by (rule NextCallback_scored)
  have ok2: "session_ok st2"
    using ok by (simp add: st2_def session_ok_def)
  show ?thesis
  proof (cases "counter st + 1 < MaxTrials")
    case True
    obtain p q where pq: "PresentNextLines mle d st2 =
       Inr (st2\<lparr>lineA_length := lineA_length st2 @ [p], lineB_length := lineB_length st2 @ [q],
              Option_var := ''''\<rparr>)" "\<bar>p - q\<bar> < 15"
      using PresentNextLines_ok by blast
    then show ?thesis using nc True ok2 by (simp add: session_ok_def StimLevels_length)
  next
    case False
    then show ?thesis using nc ok2
      by (simp add: session_ok_def PlotResults_def HideWidgets_def Let_def)
  qed
qed

lemma handle_ok:
  assumes "session_ok st"
  shows "\<exists>st'. handle mle st e = Inr st' \<and> session_ok st'"
proof (cases e)
  case SelectA
  then show ?thesis using assms by (simp add: session_ok_def)
next
  case SelectB
  then show ?thesis using assms by (simp add: session_ok_def)
next
  case (Next d)
  then show ?thesis using assms NextCallback_ok [OF assms, of mle d] by simp
qed

lemma mainloop_ok:
  "session_ok st \<Longrightarrow> \<exists>st'. mainloop mle st es = Inr st' \<and> session_ok st'"
proof (induction es arbitrary: st)
  case Nil
  then show ?case by simp
next
  case (Cons e es)
  obtain st1 where s1: "handle mle st e = Inr st1" "session_ok st1"
    using handle_ok [OF Cons.prems] by blast
  from Cons.IH [OF s1(2)] s1(1) show ?case by simp
qed

lemma mainloop_append:
  "mainloop mle st (es @ es') =
     (case mainloop mle st es of Inl err \<Rightarrow> Inl err | Inr st' \<Rightarrow> mainloop mle st' es')"
  by (induction es arbitrary: st) (auto split: sum.splits)

subsection \<open>What one event does to the arrays\<close>

lemma NextCallback_vectors:
  assumes ok: "session_ok st" and nc: "NextCallback mle d st = Inr st'"
    and i: "i = nat \<bar>last (lineA_length st) - last (lineB_length st)\<bar>"
  shows "(Total st' = Total st \<and> NumCorrect st' = NumCorrect st \<and> choice st' = choice st)
       \<or> (\<exists>c. 0 \<le> c \<and> c \<le> 1 \<and> Total st' = (Total st)[i := Total st ! i + 1]
              \<and> NumCorrect st' = (NumCorrect st)[i := NumCorrect st ! i + c]
              \<and> choice st' = choice st @ [Option_var st])"
proof (cases "Option_var st = ''''")
  case True
  then show ?thesis using nc by (auto simp: NextCallback_empty)
next
  case False
  define c :: real where "c = (if (last (lineA_length st) > last (lineB_length st) \<and> Option_var st = ''A'')
                 \<or> (last (lineB_length st) > last (lineA_length st) \<and> Option_var st = ''B'')
                then 1
                else if last (lineA_length st) = last (lineB_length st) then 1 / 2 else 0)"
  define st2 where "st2 = st\<lparr>counter := counter st + 1, choice := choice st @ [Option_var st],
        Total := (Total st)[i := Total st ! i + 1],
        NumCorrect := (NumCorrect st)[i := NumCorrect st ! i + c]\<rparr>"
  have c01: "0 \<le> c" "c \<le> 1" by (simp_all add: c_def)
  have eq: "NextCallback mle d st =
      (if counter st + 1 < MaxTrials then PresentNextLines mle d st2
       else Inr (PlotResults mle (HideWidgets st2)))"
    by (rule NextCallback_scored [OF ok False i]) (simp add: st2_def c_def)
  obtain p q where pq: "PresentNextLines mle d st2 =
       Inr (st2\<lparr>lineA_length := lineA_length st2 @ [p], lineB_length := lineB_length st2 @ [q],
              Option_var := ''''\<rparr>)"
    using PresentNextLines_ok by blast
  have "Total st' = Total st2 \<and> NumCorrect st' = NumCorrect st2 \<and> choice st' = choice st2"
    using nc eq pq by (auto simp: PlotResults_def HideWidgets_def Let_def split: if_splits)
  then have "0 \<le> c \<and> c \<le> 1 \<and> Total st' = (Total st)[i := Total st ! i + 1]
              \<and> NumCorrect st' = (NumCorrect st)[i := NumCorrect st ! i + c]
              \<and> choice st' = choice st @ [Option_var st]"
    using c01 by (simp add: st2_def)
  then show ?thesis by blast
qed

lemma handle_vectors:
  assumes ok: "session_ok st" and h: "handle mle st e = Inr st'"
    and i: "i = nat \<bar>last (lineA_length st) - last (lineB_length st)\<bar>"
  shows "(Total st' = Total st \<and> NumCorrect st' = NumCorrect st \<and> choice st' = choice st)
       \<or> (\<exists>c. 0 \<le> c \<and> c \<le> 1 \<and> Total st' = (Total st)[i := Total st ! i + 1]
              \<and> NumCorrect st' = (NumCorrect st)[i := NumCorrect st ! i + c]
              \<and> choice st' = choice st @ [Option_var st])"
proof (cases e)
  case SelectA
  then show ?thesis using h by auto
next
  case SelectB
  then show ?thesis using h by auto
next
  case (Next d)
  show ?thesis
  proof (cases "widgets_shown st")
    case True
    then have "NextCallback mle d st = Inr st'" using h Next by simp
    from NextCallback_vectors [OF ok this i] show ?thesis .
  next
    case False
    then show ?thesis using h Next by simp
  qed
qed

lemma sum_list_bump:
  fixes a :: "real list"
  shows "i < length a \<Longrightarrow> sum_list (a[i := a ! i + c]) = sum_list a + c"
proof (induction a arbitrary: i)
  case Nil
  then show ?case by simp
next
  case (Cons y ys)
  then show ?case by (cases i) simp_all
qed

lemma handle_bounds:
  assumes ok: "session_ok st" and h: "handle mle st e = Inr st'"
    and b: "\<forall>j<15. 0 \<le> NumCorrect st ! j \<and> NumCorrect st ! j \<le> Total st ! j"
  shows "\<forall>j<15. 0 \<le> NumCorrect st' ! j \<and> NumCorrect st' ! j \<le> Total st' ! j"
proof (intro allI impI)
  fix j :: nat assume j: "j < 15"
  define i where "i = nat \<bar>last (lineA_length st) - last (lineB_length st)\<bar>"
  have len: "length (Total st) = 15" "length (NumCorrect st) = 15"
    using ok by (simp_all add: session_ok_def StimLevels_length)
  have bj: "0 \<le> NumCorrect st ! j" "NumCorrect st ! j \<le> Total st ! j" using b j by simp_all
  from handle_vectors [OF ok h i_def]
  show "0 \<le> NumCorrect st' ! j \<and> NumCorrect st' ! j \<le> Total st' ! j"
  proof
    assume "Total st' = Total st \<and> NumCorrect st' = NumCorrect st \<and> choice st' = choice st"
    then show ?thesis using bj by simp
  next
    assume "\<exists>c. 0 \<le> c \<and> c \<le> 1 \<and> Total st' = (Total st)[i := Total st ! i + 1]
              \<and> NumCorrect st' = (NumCorrect st)[i := NumCorrect st ! i + c]
              \<and> choice st' = choice st @ [Option_var st]"
    then obtain c where c: "0 \<le> c" "c \<le> 1" "Total st' = (Total st)[i := Total st ! i + 1]"
      "NumCorrect st' = (NumCorrect st)[i := NumCorrect st ! i + c]" by blast
    show ?thesis
    proof (cases "i = j")
      case True
      then show ?thesis using c bj len j by simp
    next
      case False
      then show ?thesis using c bj by simp
    qed
  qed
qed

lemma handle_mono:
  assumes ok: "session_ok st" and h: "handle mle st e = Inr st'"
  shows "Total st ! j \<le> Total st' ! j \<and> NumCorrect st ! j \<le> NumCorrect st' ! j"
proof -
  define i where "i = nat \<bar>last (lineA_length st) - last (lineB_length st)\<bar>"
  have len: "length (Total st) = 15" "length (NumCorrect st) = 15"
    using ok by (simp_all add: session_ok_def StimLevels_length)
  have i15: "i < 15" using session_ok_level [OF ok] i_def by simp
  from handle_vectors [OF ok h i_def] show ?thesis
  proof
    assume "Total st' = Total st \<and> NumCorrect st' = NumCorrect st \<and> choice st' = choice st"
    then show ?thesis by simp
  next
    assume "\<exists>c. 0 \<le> c \<and> c \<le> 1 \<and> Total st' = (Total st)[i := Total st ! i + 1]
              \<and> NumCorrect st' = (NumCorrect st)[i := NumCorrect st ! i + c]
              \<and> choice st' = choice st @ [Option_var st]"
    then obtain c where c: "0 \<le> c" "c \<le> 1" "Total st' = (Total st)[i := Total st ! i + 1]"
      "NumCorrect st' = (NumCorrect st)[i := NumCorrect st ! i + c]" by blast
    show ?thesis
    proof (cases "i = j")
      case True
      then show ?thesis using c len i15 by simp
    next
      case False
      then show ?thesis using c by simp
    qed
  qed
qed

lemma handle_recorded:
  assumes ok: "session_ok st" and h: "handle mle st e = Inr st'"
    and s: "sum_list (Total st) = real (length (choice st))"
  shows "sum_list (Total st') = real (length (choice st'))"
proof -
  define i where "i = nat \<bar>last (lineA_length st) - last (lineB_length st)\<bar>"
  have len: "length (Total st) = 15"
    using ok by (simp add: session_ok_def StimLevels_length)
  have i15: "i < 15" using session_ok_level [OF ok] i_def by simp
  from handle_vectors [OF ok h i_def] show ?thesis
  proof
    assume "Total st' = Total st \<and> NumCorrect st' = NumCorrect st \<and> choice st' = choice st"
    then show ?thesis using s by simp
  next
    assume "\<exists>c. 0 \<le> c \<and> c \<le> 1 \<and> Total st' = (Total st)[i := Total st ! i + 1]
              \<and> NumCorrect st' = (NumCorrect st)[i := NumCorrect st ! i + c]
              \<and> choice st' = choice st @ [Option_var st]"
    then have "Total st' = (Total st)[i := Total st ! i + 1]" "choice st' = choice st @ [Option_var st]"
      by auto
    then show ?thesis using s len i15 by (simp add: sum_list_bump)
  qed
qed

lemma start_eval:
  "start draws0 = \<lparr>counter = 0, choice = [], lineA_length = [153], lineB_length = [150],
        NumCorrect = replicate 15 0, Total = replicate 15 0,
        Option_var = '''', widgets_shown = True, plots = []\<rparr>"
  by (simp add: start_def InitialiseLines_def NewLinesLengths_def random_choice_def
      StimLevels_def np_arange_def draws0_def size_base_def np_zeros_def)

lemma start_vectors:
  "Total (start d) = replicate 15 0 \<and> NumCorrect (start d) = replicate 15 0 \<and> choice (start d) = []"
  by (simp add: start_def InitialiseLines_def np_zeros_def StimLevels_length split: prod.splits)

lemma mainloop_bounds:
  assumes "session_ok st"
    and "\<forall>j<15. 0 \<le> NumCorrect st ! j \<and> NumCorrect st ! j \<le> Total st ! j"
    and "mainloop mle st es = Inr st'"
  shows "\<forall>j<15. 0 \<le> NumCorrect st' ! j \<and> NumCorrect st' ! j \<le> Total st' ! j"
  using assms
proof (induction es arbitrary: st)
  case Nil
  then show ?case by simp
next
  case (Cons e es)
  obtain st1 where s1: "handle mle st e = Inr st1" "session_ok st1"
    using handle_ok [OF Cons.prems(1)] by blast
  have b1: "\<forall>j<15. 0 \<le> NumCorrect st1 ! j \<and> NumCorrect st1 ! j \<le> Total st1 ! j"
    using Cons.prems(1) s1(1) Cons.prems(2) by (rule handle_bounds)
  have "mainloop mle st1 es = Inr st'" using Cons.prems(3) s1(1) by simp
  with Cons.IH [OF s1(2) b1] show ?case by blast
qed

lemma mainloop_mono:
  assumes "session_ok st" and "mainloop mle st es = Inr st'"
  shows "Total st ! j \<le> Total st' ! j \<and> NumCorrect st ! j \<le> NumCorrect st' ! j"
  using assms
proof (induction es arbitrary: st)
  case Nil
  then show ?case by simp
next
  case (Cons e es)
  obtain st1 where s1: "handle mle st e = Inr st1" "session_ok st1"
    using handle_ok [OF Cons.prems(1)] by blast
  have m1: "Total st ! j \<le> Total st1 ! j \<and> NumCorrect st ! j \<le> NumCorrect st1 ! j"
    using Cons.prems(1) s1(1) by (rule handle_mono)
  have "mainloop mle st1 es = Inr st'" using Cons.prems(2) s1(1) by simp
  from Cons.IH [OF s1(2) this] m1 show ?case by linarith
qed

lemma mainloop_recorded:
  assumes "session_ok st" and "sum_list (Total st) = real (length (choice st))"
    and "mainloop mle st es = Inr st'"
  shows "sum_list (Total st') = real (length (choice st'))"
  using assms
proof (induction es arbitrary: st)
  case Nil
  then show ?case by simp
next
  case (Cons e es)
  obtain st1 where s1: "handle mle st e = Inr st1" "session_ok st1"
    using handle_ok [OF Cons.prems(1)] by blast
  have r1: "sum_list (Total st1) = real (length (choice st1))"
    using Cons.prems(1) s1(1) Cons.prems(2) by (rule handle_recorded)
  have "mainloop mle st1 es = Inr st'" using Cons.prems(3) s1(1) by simp
  with Cons.IH [OF s1(2) r1] show ?case by blast
qed

lemma empty_clicks:
  "Option_var st = '''' \<Longrightarrow> widgets_shown st \<Longrightarrow>
   mainloop mle st (replicate n (Next d)) = Inr (st\<lparr>counter := counter st + int n\<rparr>)"
proof (induction n arbitrary: st)
  case 0
  then show ?case by simp
next
  case (Suc n)
  have "mainloop mle (st\<lparr>counter := counter st + 1\<rparr>) (replicate n (Next d)) =
      Inr (st\<lparr>counter := counter st + 1\<rparr>\<lparr>counter := counter (st\<lparr>counter := counter st + 1\<rparr>) + int n\<rparr>)"
    by (rule Suc.IH) (use Suc.prems in simp_all)
  then show ?case using Suc.prems by (simp add: NextCallback_empty add.assoc)
qed

subsection \<open>Concrete thresholds and the outcomes of the jitter draw\<close>







subsection \<open>The end of the test\<close>

lemma handle_finished: "\<not> widgets_shown st \<Longrightarrow> handle mle st e = Inr st"
  by (cases e) simp_all

lemma NextCallback_finish:
  assumes ok: "session_ok st" and nc: "NextCallback mle d st = Inr st'"
    and sh: "widgets_shown st" and pl: "plots st = []"
  shows "(widgets_shown st' \<and> plots st' = [])
       \<or> (\<not> widgets_shown st' \<and> length (plots st') = 1 \<and> MaxTrials \<le> counter st'
            \<and> Option_var st \<noteq> '''')"
proof (cases "Option_var st = ''''")
  case True
  then show ?thesis using nc sh pl by (auto simp: NextCallback_empty)
next
  case False
  define i where "i = nat \<bar>last (lineA_length st) - last (lineB_length st)\<bar>"
  define st2 where "st2 = st\<lparr>counter := counter st + 1, choice := choice st @ [Option_var st],
        Total := (Total st)[i := Total st ! i + 1],
        NumCorrect := (NumCorrect st)[i := NumCorrect st ! i +
               (if (last (lineA_length st) > last (lineB_length st) \<and> Option_var st = ''A'')
                 \<or> (last (lineB_length st) > last (lineA_length st) \<and> Option_var st = ''B'')
                then 1
                else if last (lineA_length st) = last (lineB_length st) then 1 / 2 else 0)]\<rparr>"
  have eq: "NextCallback mle d st =
      (if counter st + 1 < MaxTrials then PresentNextLines mle d st2
       else Inr (PlotResults mle (HideWidgets st2)))"
    using ok False i_def st2_def by (rule NextCallback_scored)
  obtain p q where pq: "PresentNextLines mle d st2 =
       Inr (st2\<lparr>lineA_length := lineA_length st2 @ [p], lineB_length := lineB_length st2 @ [q],
              Option_var := ''''\<rparr>)"
    using PresentNextLines_ok by blast
  show ?thesis
  proof (cases "counter st + 1 < MaxTrials")
    case True
    then have "st' = st2\<lparr>lineA_length := lineA_length st2 @ [p],
        lineB_length := lineB_length st2 @ [q], Option_var := ''''\<rparr>"
      using nc eq pq by simp
    then show ?thesis using sh pl by (simp add: st2_def)
  next
    case f: False
    then have "st' = PlotResults mle (HideWidgets st2)" using nc eq by simp
    then show ?thesis using f False
      by (simp add: PlotResults_def HideWidgets_def Let_def st2_def pl)
  qed
qed

lemma mainloop_finish:
  assumes "session_ok st"
    and "(widgets_shown st \<and> plots st = [])
       \<or> (\<not> widgets_shown st \<and> length (plots st) = 1 \<and> MaxTrials \<le> counter st)"
    and "mainloop mle st es = Inr st'"
  shows "(widgets_shown st' \<and> plots st' = [])
       \<or> (\<not> widgets_shown st' \<and> length (plots st') = 1 \<and> MaxTrials \<le> counter st')"
  using assms
proof (induction es arbitrary: st)
  case Nil
  then show ?case by simp
next
  case (Cons e es)
  obtain st1 where s1: "handle mle st e = Inr st1" "session_ok st1"
    using handle_ok [OF Cons.prems(1)] by blast
  have f1: "(widgets_shown st1 \<and> plots st1 = [])
       \<or> (\<not> widgets_shown st1 \<and> length (plots st1) = 1 \<and> MaxTrials \<le> counter st1)"
  proof (cases "widgets_shown st")
    case False
    then have "st1 = st" using s1(1) handle_finished [of st mle e] by simp
    then show ?thesis using Cons.prems(2) by simp
  next
    case True
    then have pl: "plots st = []" using Cons.prems(2) by auto
    show ?thesis
    proof (cases e)
      case SelectA
      then show ?thesis using s1(1) True pl by auto
    next
      case SelectB
      then show ?thesis using s1(1) True pl by auto
    next
      case (Next d)
      then have "NextCallback mle d st = Inr st1" using s1(1) True by simp
      from NextCallback_finish [OF Cons.prems(1) this True pl] show ?thesis by blast
    qed
  qed
  have "mainloop mle st1 es = Inr st'" using Cons.prems(3) s1(1) by simp
  from Cons.IH [OF s1(2) f1 this] show ?case .
qed

text \<open>What the code guarantees about the end of the test and about the counters, for every
  state a session reaches: either the widgets are on screen and nothing was plotted, or the
  widgets are hidden, \<open>PlotResults\<close> ran exactly once and the counter is at least
  \<open>MaxTrials\<close>; the trials recorded in \<open>Total\<close> are as many as the recorded choices, and
  further events leave a finished state as it is.\<close>

lemma session_end_and_counts:
  assumes "mainloop mle (start d) es = Inr st"
  shows "((widgets_shown st \<and> plots st = [])
         \<or> (\<not> widgets_shown st \<and> length (plots st) = 1 \<and> MaxTrials \<le> counter st))
       \<and> sum_list (Total st) = real (length (choice st))
       \<and> (\<not> widgets_shown st \<longrightarrow> mainloop mle st es' = Inr st)"
proof -
  have s0: "widgets_shown (start d) \<and> plots (start d) = []"
    by (simp add: start_def InitialiseLines_def split: prod.splits)
  have a: "(widgets_shown st \<and> plots st = [])
         \<or> (\<not> widgets_shown st \<and> length (plots st) = 1 \<and> MaxTrials \<le> counter st)"
    using start_ok _ assms by (rule mainloop_finish) (simp add: s0)
  have b: "sum_list (Total st) = real (length (choice st))"
    using start_ok _ assms by (rule mainloop_recorded) (simp add: start_vectors sum_list_replicate)
  have c: "mainloop mle st es' = Inr st" if "\<not> widgets_shown st"
    using that by (induction es') (simp_all add: handle_finished)
  show ?thesis using a b c by blast
qed

subsection \<open>The pair generator\<close>

text \<open>
  C9. For every baseline and increment the pair returned by \<open>NewLinesLengths\<close> is the
  baseline on both sides with the increment added to exactly one of them; the two
  equiprobable outcomes of the coin put it on side A and on side B respectively; an
  increment of zero gives two equal lengths. The function takes and returns no session
  variable: it has no other effect.
\<close>

theorem NewLinesLengths_one_side:
  "(NewLinesLengths b inc r = (b + inc, b) \<or> NewLinesLengths b inc r = (b, b + inc))
   \<and> NewLinesLengths b inc 0 = (b + inc, b)
   \<and> NewLinesLengths b inc 1 = (b, b + inc)
   \<and> fst (NewLinesLengths b 0 r) = snd (NewLinesLengths b 0 r)"
  by (simp add: NewLinesLengths_def random_choice_def)

subsection \<open>The scorer\<close>

text \<open>
  C3. A scoring call on a pair \<open>A, B\<close> whose absolute difference is \<open>StimLevels[i]\<close>, with
  the recorded choice \<open>'A'\<close> or \<open>'B'\<close>, returns without error, adds exactly one to
  \<open>Total[i]\<close>, and adds to \<open>NumCorrect[i]\<close> exactly one when the choice names the longer
  line, one half when the two lines are equal, and nothing otherwise.
\<close>

theorem scoring_rule:
  assumes "lineA_length st \<noteq> []" and "lineB_length st \<noteq> []" and "choice st \<noteq> []"
    and "last (choice st) = ''A'' \<or> last (choice st) = ''B''"
    and "length (Total st) = length StimLevels" and "length (NumCorrect st) = length StimLevels"
    and "i < length StimLevels"
    and "StimLevels ! i = \<bar>last (lineA_length st) - last (lineB_length st)\<bar>"
  shows "\<exists>st'. UpdateResultsVariablesByChoice st = Inr st' \<and>
      Total st' ! i = Total st ! i + 1 \<and>
      NumCorrect st' ! i = NumCorrect st ! i +
        (if (last (lineA_length st) > last (lineB_length st) \<and> last (choice st) = ''A'')
          \<or> (last (lineB_length st) > last (lineA_length st) \<and> last (choice st) = ''B'')
         then 1
         else if last (lineA_length st) = last (lineB_length st) then 1 / 2 else 0)"
proof -
  have i15: "i < 15" using assms(7) by (simp add: StimLevels_length)
  have lv: "\<bar>last (lineA_length st) - last (lineB_length st)\<bar> = int i"
    using assms(8) i15 by (simp add: StimLevels_nth)
  have len: "length (Total st) = 15" "length (NumCorrect st) = 15"
    using assms(5,6) by (simp_all add: StimLevels_length)
  show ?thesis
    unfolding Update_scored [OF assms(1,2,3) len lv i15]
    using assms(4) len i15 by auto
qed

theorem scoring_rule_witness:
  "lineA_length ((start draws0)\<lparr>choice := [''A'']\<rparr>) \<noteq> [] \<and>
   lineB_length ((start draws0)\<lparr>choice := [''A'']\<rparr>) \<noteq> [] \<and>
   choice ((start draws0)\<lparr>choice := [''A'']\<rparr>) \<noteq> [] \<and>
   last (choice ((start draws0)\<lparr>choice := [''A'']\<rparr>)) = ''A'' \<and>
   length (Total ((start draws0)\<lparr>choice := [''A'']\<rparr>)) = length StimLevels \<and>
   length (NumCorrect ((start draws0)\<lparr>choice := [''A'']\<rparr>)) = length StimLevels \<and>
   3 < length StimLevels \<and>
   StimLevels ! 3 = \<bar>last (lineA_length ((start draws0)\<lparr>choice := [''A'']\<rparr>))
                     - last (lineB_length ((start draws0)\<lparr>choice := [''A'']\<rparr>))\<bar> \<and>
   (\<exists>st'. UpdateResultsVariablesByChoice ((start draws0)\<lparr>choice := [''A'']\<rparr>) = Inr st' \<and>
      Total st' ! 3 = 1 \<and> NumCorrect st' ! 3 = 1)"
proof -
  let ?s = "(start draws0)\<lparr>choice := [''A'']\<rparr>"
  have h: "lineA_length ?s \<noteq> []" "lineB_length ?s \<noteq> []" "choice ?s \<noteq> []"
    "last (choice ?s) = ''A'' \<or> last (choice ?s) = ''B''"
    "length (Total ?s) = length StimLevels" "length (NumCorrect ?s) = length StimLevels"
    "3 < length StimLevels"
    "StimLevels ! 3 = \<bar>last (lineA_length ?s) - last (lineB_length ?s)\<bar>"
    by (simp_all add: start_eval StimLevels_length StimLevels_nth)
  have v: "Total ?s ! 3 = 0" "NumCorrect ?s ! 3 = 0"
    "last (lineA_length ?s) > last (lineB_length ?s)" "last (choice ?s) = ''A''"
    by (simp_all add: start_eval eval_nat_numeral)
  from scoring_rule [OF h] obtain st' where
    "UpdateResultsVariablesByChoice ?s = Inr st'" "Total st' ! 3 = Total ?s ! 3 + 1"
    "NumCorrect st' ! 3 = NumCorrect ?s ! 3 +
        (if (last (lineA_length ?s) > last (lineB_length ?s) \<and> last (choice ?s) = ''A'')
          \<or> (last (lineB_length ?s) > last (lineA_length ?s) \<and> last (choice ?s) = ''B'')
         then 1
         else if last (lineA_length ?s) = last (lineB_length ?s) then 1 / 2 else 0)"
    by blast
  then have "UpdateResultsVariablesByChoice ?s = Inr st' \<and> Total st' ! 3 = 1 \<and> NumCorrect st' ! 3 = 1"
    using v by simp
  then show ?thesis using h v(4) by blast
qed

text \<open>
  C10. A scoring call changes \<open>Total\<close> and \<open>NumCorrect\<close> at most at the position \<open>i\<close>
  with \<open>StimLevels[i] = |A - B|\<close>, and lowers no entry; over a whole session, from any
  reached state to any later one, both arrays are pointwise non-decreasing.
\<close>

theorem scoring_frame:
  assumes "lineA_length st \<noteq> []" and "lineB_length st \<noteq> []" and "choice st \<noteq> []"
    and "length (Total st) = length StimLevels" and "length (NumCorrect st) = length StimLevels"
    and "i < length StimLevels"
    and "StimLevels ! i = \<bar>last (lineA_length st) - last (lineB_length st)\<bar>"
  shows "(\<exists>st'. UpdateResultsVariablesByChoice st = Inr st' \<and>
       (\<forall>j. j \<noteq> i \<longrightarrow> Total st' ! j = Total st ! j \<and> NumCorrect st' ! j = NumCorrect st ! j) \<and>
       (\<forall>j. Total st ! j \<le> Total st' ! j \<and> NumCorrect st ! j \<le> NumCorrect st' ! j))
     \<and> (\<forall>mle d es es' s s'.
           mainloop mle (start d) es = Inr s \<and> mainloop mle s es' = Inr s' \<longrightarrow>
           (\<forall>j. Total s ! j \<le> Total s' ! j \<and> NumCorrect s ! j \<le> NumCorrect s' ! j))"
proof
  have i15: "i < 15" using assms(6) by (simp add: StimLevels_length)
  have lv: "\<bar>last (lineA_length st) - last (lineB_length st)\<bar> = int i"
    using assms(7) i15 by (simp add: StimLevels_nth)
  have len: "length (Total st) = 15" "length (NumCorrect st) = 15"
    using assms(4,5) by (simp_all add: StimLevels_length)
  have upd: "a[i := a ! i + c] ! j = (if j = i then a ! i + c else a ! j)"
    if "length a = 15" for a :: "real list" and c j
    using that i15 by (cases "j = i") simp_all
  show "\<exists>st'. UpdateResultsVariablesByChoice st = Inr st' \<and>
       (\<forall>j. j \<noteq> i \<longrightarrow> Total st' ! j = Total st ! j \<and> NumCorrect st' ! j = NumCorrect st ! j) \<and>
       (\<forall>j. Total st ! j \<le> Total st' ! j \<and> NumCorrect st ! j \<le> NumCorrect st' ! j)"
    unfolding Update_scored [OF assms(1,2,3) len lv i15]
    by (simp add: upd len)
next
  show "\<forall>mle d es es' s s'.
           mainloop mle (start d) es = Inr s \<and> mainloop mle s es' = Inr s' \<longrightarrow>
           (\<forall>j. Total s ! j \<le> Total s' ! j \<and> NumCorrect s ! j \<le> NumCorrect s' ! j)"
  proof (intro allI impI)
    fix mle d es es' s s' j
    assume a: "mainloop mle (start d) es = Inr s \<and> mainloop mle s es' = Inr s'"
    have "session_ok s" using mainloop_ok [OF start_ok, of mle d es] a by auto
    moreover have "mainloop mle s es' = Inr s'" using a by simp
    ultimately show "Total s ! j \<le> Total s' ! j \<and> NumCorrect s ! j \<le> NumCorrect s' ! j"
      by (rule mainloop_mono)
  qed
qed

theorem scoring_frame_witness:
  "lineA_length ((start draws0)\<lparr>choice := [''B'']\<rparr>) \<noteq> [] \<and>
   lineB_length ((start draws0)\<lparr>choice := [''B'']\<rparr>) \<noteq> [] \<and>
   choice ((start draws0)\<lparr>choice := [''B'']\<rparr>) \<noteq> [] \<and>
   length (Total ((start draws0)\<lparr>choice := [''B'']\<rparr>)) = length StimLevels \<and>
   length (NumCorrect ((start draws0)\<lparr>choice := [''B'']\<rparr>)) = length StimLevels \<and>
   3 < length StimLevels \<and>
   StimLevels ! 3 = \<bar>last (lineA_length ((start draws0)\<lparr>choice := [''B'']\<rparr>))
                     - last (lineB_length ((start draws0)\<lparr>choice := [''B'']\<rparr>))\<bar> \<and>
   (\<exists>st'. UpdateResultsVariablesByChoice ((start draws0)\<lparr>choice := [''B'']\<rparr>) = Inr st' \<and>
      Total st' ! 5 = 0 \<and> NumCorrect st' ! 5 = 0 \<and> 0 \<le> Total st' ! 3 \<and> 0 \<le> NumCorrect st' ! 3) \<and>
   (\<exists>s s'. mainloop fit_failed (start draws0) [SelectA] = Inr s \<and>
      mainloop fit_failed s [Next draws1] = Inr s' \<and> Total s ! 3 \<le> Total s' ! 3)"
proof -
  let ?s = "(start draws0)\<lparr>choice := [''B'']\<rparr>"
  have h: "lineA_length ?s \<noteq> []" "lineB_length ?s \<noteq> []" "choice ?s \<noteq> []"
    "length (Total ?s) = length StimLevels" "length (NumCorrect ?s) = length StimLevels"
    "3 < length StimLevels"
    "StimLevels ! 3 = \<bar>last (lineA_length ?s) - last (lineB_length ?s)\<bar>"
    by (simp_all add: start_eval StimLevels_length StimLevels_nth)
  have v: "Total ?s ! 5 = 0" "NumCorrect ?s ! 5 = 0" "Total ?s ! 3 = 0" "NumCorrect ?s ! 3 = 0"
    by (simp_all add: start_eval eval_nat_numeral)
  note fr = scoring_frame [OF h]
  from fr obtain st' where u: "UpdateResultsVariablesByChoice ?s = Inr st'"
    and f: "\<forall>j. j \<noteq> 3 \<longrightarrow> Total st' ! j = Total ?s ! j \<and> NumCorrect st' ! j = NumCorrect ?s ! j"
    and m: "\<forall>j. Total ?s ! j \<le> Total st' ! j \<and> NumCorrect ?s ! j \<le> NumCorrect st' ! j"
    by blast
  have "Total st' ! 5 = Total ?s ! 5" "NumCorrect st' ! 5 = NumCorrect ?s ! 5" using f by simp_all
  moreover have "Total ?s ! 3 \<le> Total st' ! 3" "NumCorrect ?s ! 3 \<le> NumCorrect st' ! 3"
    using m by simp_all
  ultimately have p1: "\<exists>st'. UpdateResultsVariablesByChoice ?s = Inr st' \<and>
      Total st' ! 5 = 0 \<and> NumCorrect st' ! 5 = 0 \<and> 0 \<le> Total st' ! 3 \<and> 0 \<le> NumCorrect st' ! 3"
    using u v by auto
  obtain s where s: "mainloop fit_failed (start draws0) [SelectA] = Inr s" "session_ok s"
    using mainloop_ok [OF start_ok] by blast
  obtain s' where s': "mainloop fit_failed s [Next draws1] = Inr s'"
    using mainloop_ok [OF s(2)] by blast
  have "Total s ! 3 \<le> Total s' ! 3" using fr s(1) s' by blast
  then have p2: "\<exists>s s'. mainloop fit_failed (start draws0) [SelectA] = Inr s \<and>
      mainloop fit_failed s [Next draws1] = Inr s' \<and> Total s ! 3 \<le> Total s' ! 3"
    using s(1) s' by blast
  show ?thesis using h p1 p2 by blast
qed

subsection \<open>Invariants of the session\<close>

text \<open>
  C5. Whatever the participant does and whatever the search returns, the main loop raises
  no error, and in the state it reaches \<open>0 \<le> NumCorrect[i] \<le> Total[i]\<close> holds at every
  level \<open>i\<close>.
\<close>

theorem NumCorrect_between_zero_and_Total:
  "\<exists>st. mainloop mle (start d) es = Inr st \<and>
     (\<forall>i<length StimLevels. 0 \<le> NumCorrect st ! i \<and> NumCorrect st ! i \<le> Total st ! i)"
proof -
  obtain st where st: "mainloop mle (start d) es = Inr st"
    using mainloop_ok [OF start_ok] by blast
  have "\<forall>j<15. 0 \<le> NumCorrect (start d) ! j \<and> NumCorrect (start d) ! j \<le> Total (start d) ! j"
    by (simp add: start_vectors)
  with start_ok have "\<forall>j<15. 0 \<le> NumCorrect st ! j \<and> NumCorrect st ! j \<le> Total st ! j"
    using st by (rule mainloop_bounds)
  with st show ?thesis by (simp add: StimLevels_length)
qed

theorem NumCorrect_between_zero_and_Total_witness:
  "3 < length StimLevels \<and>
   (\<exists>st. mainloop fit_failed (start draws0) [SelectA, Next draws1] = Inr st \<and>
      0 \<le> NumCorrect st ! 3 \<and> NumCorrect st ! 3 \<le> Total st ! 3)"
  using NumCorrect_between_zero_and_Total [of fit_failed draws0 "[SelectA, Next draws1]"]
  by (auto simp: StimLevels_length)

subsection \<open>The adaptive selector\<close>







text \<open>
  C8. In the adaptive phase with a search that does not report success, the selected index
  is \<open>random.choice(range(len(StimLevels)))\<close>: the equiprobable draws yield every index
  \<open>0, ..., len(StimLevels) - 1\<close> exactly once, the outcomes are those of a warm-up state
  with the same draws, nothing is raised, and \<open>PresentNextLines\<close> appends the new pair
  and unsets \<open>Option\<close> as in every other trial.
\<close>

theorem failed_fit_falls_back_to_uniform:
  assumes "\<not> real_of_int (counter st) < MinTrials"
    and "\<not> success (mle Gamma Lambda typef StimLevels (NumCorrect st) (Total st))"
  shows "GetNextLengths_StimIndex mle d st
           = Inr (random_choice (py_range (length StimLevels)) (r_index d))
    \<and> index_outcomes mle d st = map (\<lambda>k. Inr (int k)) [0..<length StimLevels]
    \<and> index_outcomes mle d st = index_outcomes mle d (st\<lparr>counter := 0\<rparr>)
    \<and> (\<exists>p q. GetNextLengths mle d st = Inr (p, q) \<and>
          PresentNextLines mle d st =
            Inr (st\<lparr>lineA_length := lineA_length st @ [p],
                   lineB_length := lineB_length st @ [q], Option_var := ''''\<rparr>))"
proof -
  have w: "real_of_int (counter (st\<lparr>counter := 0\<rparr>)) < MinTrials" by (simp add: MinTrials_eq)
  have o1: "GetNextLengths_StimIndex mle (d\<lparr>r_index := r\<rparr>) st = Inr (int (r mod 15))" for r
    using StimIndex_random [of st mle "d\<lparr>r_index := r\<rparr>"] assms(2) by simp
  have o2: "GetNextLengths_StimIndex mle (d\<lparr>r_index := r\<rparr>) (st\<lparr>counter := 0\<rparr>) = Inr (int (r mod 15))" for r
    using StimIndex_random [of "st\<lparr>counter := 0\<rparr>" mle "d\<lparr>r_index := r\<rparr>"] w by simp
  have p1: "GetNextLengths_StimIndex mle d st
           = Inr (random_choice (py_range (length StimLevels)) (r_index d))"
    using StimIndex_random [of st mle d] assms(2)
    by (simp add: random_choice_py_range StimLevels_length)
  have p2: "index_outcomes mle d st = map (\<lambda>k. Inr (int k)) [0..<length StimLevels]"
    unfolding index_outcomes_def by (rule map_cong) (simp_all add: o1 StimLevels_length)
  have p3: "index_outcomes mle d st = index_outcomes mle d (st\<lparr>counter := 0\<rparr>)"
    unfolding index_outcomes_def by (simp add: o1 o2)
  obtain p q where pq: "GetNextLengths mle d st = Inr (p, q)"
    using GetNextLengths_ok by blast
  then have p4: "GetNextLengths mle d st = Inr (p, q) \<and>
          PresentNextLines mle d st =
            Inr (st\<lparr>lineA_length := lineA_length st @ [p],
                   lineB_length := lineB_length st @ [q], Option_var := ''''\<rparr>)"
    by (simp add: PresentNextLines_def)
  show ?thesis using p1 p2 p3 p4 by blast
qed

theorem failed_fit_falls_back_to_uniform_witness:
  "\<not> real_of_int (counter ((start draws0)\<lparr>counter := 9\<rparr>)) < MinTrials \<and>
   \<not> success (fit_failed Gamma Lambda typef StimLevels
      (NumCorrect ((start draws0)\<lparr>counter := 9\<rparr>)) (Total ((start draws0)\<lparr>counter := 9\<rparr>))) \<and>
   GetNextLengths_StimIndex fit_failed draws1 ((start draws0)\<lparr>counter := 9\<rparr>) = Inr 5 \<and>
   index_outcomes fit_failed draws1 ((start draws0)\<lparr>counter := 9\<rparr>)
     = map (\<lambda>k. Inr (int k)) [0..<length StimLevels] \<and>
   (\<exists>p q. GetNextLengths fit_failed draws1 ((start draws0)\<lparr>counter := 9\<rparr>) = Inr (p, q))"
proof -
  let ?s = "(start draws0)\<lparr>counter := 9\<rparr>"
  have h1: "\<not> real_of_int (counter ?s) < MinTrials" by (simp add: MinTrials_eq)
  have h2: "\<not> success (fit_failed Gamma Lambda typef StimLevels (NumCorrect ?s) (Total ?s))"
    by (simp add: fit_failed_def)
  note t = failed_fit_falls_back_to_uniform [where st = "?s" and mle = fit_failed and d = draws1, OF h1 h2]
  have "random_choice (py_range (length StimLevels)) (r_index draws1) = 5"
    by (simp add: random_choice_py_range StimLevels_length draws1_def)
  then have "GetNextLengths_StimIndex fit_failed draws1 ?s = Inr 5" using t by simp
  then show ?thesis using h1 h2 t by blast
qed

subsection \<open>The trial counter\<close>

text \<open>
  C1. \<open>NextCallback\<close> increments \<open>root.counter\<close> before it tests \<open>Option.get()\<close>.
  At the start of the program, where no radio button is selected and the counter is 0, a
  press of Next returns the same state with the counter at 1: the arrays, the recorded
  choices and the lines are unchanged, the counter is not. (Lemma \<open>NextCallback_empty\<close>
  says the same of every state with an unset \<open>Option\<close>.)
\<close>

theorem empty_click_advances_counter:
  "Option_var (start draws0) = '''' \<and> counter (start draws0) = 0 \<and>
   NextCallback fit_failed draws1 (start draws0) = Inr ((start draws0)\<lparr>counter := 1\<rparr>)"
  by code_simp

text \<open>
  C4. After a press of Next with no selection, then a selection of A and a second press
  of Next, one trial has been recorded (\<open>sum(Total) = 1\<close>, one choice) and the counter is 2.
\<close>

theorem counter_exceeds_recorded_trials:
  "map_sum id (\<lambda>st. (counter st, sum_list (Total st), choice st))
     (mainloop fit_failed (start draws0) [Next draws1, SelectA, Next draws1]) = Inr (2, 1, [''A''])"
  by code_simp

text \<open>
  C6. After thirty presses of Next with no selection the counter equals \<open>MaxTrials\<close> while
  the widgets are still on screen and nothing has been plotted; one selection and one more
  press later the widgets are hidden and \<open>PlotResults\<close> has run once, with the counter at
  31 and a single recorded trial.
\<close>

theorem finish_with_counter_above_MaxTrials:
  "MaxTrials = 30 \<and>
   map_sum id (\<lambda>st. (counter st, widgets_shown st, length (plots st), sum_list (Total st)))
     (mainloop fit_failed (start draws0) (replicate 30 (Next draws1))) = Inr (30, True, 0, 0) \<and>
   map_sum id (\<lambda>st. (counter st, widgets_shown st, length (plots st), sum_list (Total st)))
     (mainloop fit_failed (start draws0) (replicate 30 (Next draws1) @ [SelectA, Next draws1]))
       = Inr (31, False, 1, 1)"
  by code_simp

end
